theory Spec2Isabelle
  imports Complex_Main
begin

section \<open>The tab bar of \<^verbatim>\<open>src/components/tabBar/index.tsx\<close>\<close>

text \<open>
  The component is a React class with two state fields, a few instance fields and a list
  of children. The embedding keeps one HOL function per method of the class. What the
  methods do to the world outside (calls of the caller's callbacks, calls of the scroll
  bar's \<^verbatim>\<open>scrollTo\<close>) is recorded in a list of events; what React does for the class
  (\<^verbatim>\<open>setState\<close> with its batching, \<^verbatim>\<open>setTimeout\<close>) is written out in the small
  runtime of the next sections.

  Numbers: indices and counts are \<open>int\<close> and \<open>nat\<close>. The widths and offsets the component
  is handed are finite doubles, modelled by the reals they denote; comparing two of them
  is exact. A sum or difference of doubles is rounded by the engine and can overflow, so
  the results of the component's own arithmetic are values of \<open>jsnum\<close>, and the rounding
  function of the engine is a parameter of the model (the field \<open>round64\<close> below): nothing
  is assumed about it. A width or offset that is itself NaN or infinite is not part of the
  model.
\<close>

subsection \<open>Data\<close>

text \<open>A caller-supplied function is known by a name only; the model never looks inside.\<close>

type_synonym callback = string

text \<open>
  The one exception the code can raise by itself: reading a property of \<^verbatim>\<open>undefined\<close> or
  \<^verbatim>\<open>null\<close>.
\<close>

datatype error = TypeError

text \<open>
  The result of an arithmetic operation on numbers: a finite double (the real it denotes),
  an infinity, or NaN.
\<close>

datatype jsnum = Finite real | PosInf | NegInf | NaN

text \<open>
  What \<^verbatim>\<open>getLayout()\<close> of a tab item returns when it returns something. The source reads the
  fields \<^verbatim>\<open>x\<close> and \<^verbatim>\<open>width\<close> only.
\<close>

record Layout =
  layout_x :: real
  layout_width :: real

text \<open>
  A reference to a rendered tab item. \<^verbatim>\<open>TabBarItem\<close> is not part of the file; of a reference
  the model keeps the one thing the tab bar asks it: the result of \<^verbatim>\<open>getLayout()\<close>, which is
  a layout or \<^verbatim>\<open>undefined\<close>.
\<close>

datatype itemRef = ItemRef "Layout option"

text \<open>The props of one child (\<^verbatim>\<open>child.props\<close>) that the tab bar reads.\<close>

record ItemProps =
  ignore :: bool
  label :: "string option"
  accessibilityLabel :: "string option"
  onPress :: "callback option"

text \<open>
  The props of the tab bar that take part in its logic. \<^verbatim>\<open>selectedIndex\<close> has the default 0
  (\<^verbatim>\<open>defaultProps\<close>), so it is always a number. The children are React elements: the render
  method reads \<^verbatim>\<open>child.props\<close> of every child, so each child is an element with props.
\<close>

record Props =
  minTabsForScroll :: "int option"
  selectedIndex :: int
  onChangeIndex_prop :: "callback option"
  onTabSelected_prop :: "callback option"
  containerWidth :: "real option"
  children :: "ItemProps list"

record State =
  scrollEnabled :: bool
  currentIndex :: int

text \<open>The effects visible outside the component, in the order they happen.\<close>

datatype event =
    OnChangeIndex callback int
  | OnTabSelected callback int
  | OnPress callback
  | ScrollTo jsnum jsnum bool

text \<open>A partial state handed to \<^verbatim>\<open>setState\<close>, and the callback that can go with it.\<close>

datatype partialState = CurrentIndex int | ScrollEnabled bool

datatype afterCommit = ScrollToSelected

text \<open>
  The instance. \<open>screenWidth\<close> stands for \<^verbatim>\<open>Constants.screenWidth\<close>, a value of the helpers
  module the file imports. \<open>scrollBarCurrent\<close> says whether \<^verbatim>\<open>this.scrollBar.current\<close> is
  attached. \<open>round64\<close> is the rounding of the engine's arithmetic: it takes the exact
  result of an operation on two finite doubles to the double the engine returns, which is
  an infinity when the result overflows. \<open>itemsRefs\<close> is the array of the same name: an entry is \<open>None\<close> where the array
  holds \<^verbatim>\<open>null\<close>, \<^verbatim>\<open>undefined\<close> or a hole. \<open>pending\<close> are the \<^verbatim>\<open>setState\<close> calls React has
  queued and not yet applied, \<open>timers\<close> the \<^verbatim>\<open>setTimeout\<close> callbacks not yet run (each is the
  closure of \<^verbatim>\<open>onItemPress\<close>, known by the index and child props it captured).
\<close>

record TabBar =
  props :: Props
  state :: State
  screenWidth :: real
  round64 :: "real \<Rightarrow> jsnum"
  scrollContentWidth :: "real option"
  contentOffset :: "real \<times> real"
  scrollBarCurrent :: bool
  itemsRefs :: "itemRef option list"
  pending :: "(partialState \<times> afterCommit option) list"
  timers :: "(int \<times> ItemProps) list"
  events :: "event list"

subsection \<open>JavaScript helpers\<close>

text \<open>\<^verbatim>\<open>xs[i]\<close>: \<^verbatim>\<open>undefined\<close> outside the array.\<close>

definition nth_opt :: "'a list \<Rightarrow> int \<Rightarrow> 'a option" where
  "nth_opt xs i = (if 0 \<le> i \<and> nat i < length xs then Some (xs ! nat i) else None)"

text \<open>\<^verbatim>\<open>xs[i] = v\<close>: an assignment past the end extends the array with holes.\<close>

definition js_assign :: "'a option list \<Rightarrow> nat \<Rightarrow> 'a option \<Rightarrow> 'a option list" where
  "js_assign xs i v =
     (if i < length xs then xs[i := v] else xs @ replicate (i - length xs) None @ [v])"

text \<open>\<^verbatim>\<open>a || b\<close> on optional strings: the empty string is falsy, as \<^verbatim>\<open>undefined\<close> is.\<close>

definition js_or :: "string option \<Rightarrow> string option \<Rightarrow> string option" where
  "js_or a b = (case a of None \<Rightarrow> b | Some s \<Rightarrow> if s = [] then b else Some s)"

text \<open>The decimal digits of a natural number, as a template literal prints an index.\<close>

definition digit_char :: "nat \<Rightarrow> char" where
  "digit_char d = ''0123456789'' ! d"

function string_of_nat :: "nat \<Rightarrow> string" where
  "string_of_nat n =
     (if n < 10 then [digit_char n] else string_of_nat (n div 10) @ [digit_char (n mod 10)])"
  by pat_completeness auto
termination
  by (relation "measure id") auto

declare string_of_nat.simps [simp del]

text \<open>Reading the digits back, to say what \<open>string_of_nat\<close> prints.\<close>

definition digit_value :: "char \<Rightarrow> nat" where
  "digit_value ch = of_char ch - 48"

definition nat_of_string :: "string \<Rightarrow> nat" where
  "nat_of_string s = foldl (\<lambda>a ch. 10 * a + digit_value ch) 0 s"

text \<open>
  \<^verbatim>\<open>a + b\<close>, \<^verbatim>\<open>a - b\<close> and \<^verbatim>\<open>a < b\<close> on numbers, as IEEE 754 defines them: the exact result
  of two finite operands is rounded by \<open>rnd\<close>; an infinity absorbs a finite operand; opposite
  infinities and NaN give NaN; every comparison with NaN is false. \<^verbatim>\<open>a > b\<close> is \<open>js_less b a\<close>.
\<close>

fun js_add :: "(real \<Rightarrow> jsnum) \<Rightarrow> jsnum \<Rightarrow> jsnum \<Rightarrow> jsnum" where
  "js_add rnd (Finite a) (Finite b) = rnd (a + b)"
| "js_add rnd NaN b = NaN"
| "js_add rnd a NaN = NaN"
| "js_add rnd PosInf NegInf = NaN"
| "js_add rnd NegInf PosInf = NaN"
| "js_add rnd PosInf b = PosInf"
| "js_add rnd NegInf b = NegInf"
| "js_add rnd (Finite a) b = b"

fun js_neg :: "jsnum \<Rightarrow> jsnum" where
  "js_neg (Finite a) = Finite (- a)"
| "js_neg PosInf = NegInf"
| "js_neg NegInf = PosInf"
| "js_neg NaN = NaN"

definition js_sub :: "(real \<Rightarrow> jsnum) \<Rightarrow> jsnum \<Rightarrow> jsnum \<Rightarrow> jsnum" where
  "js_sub rnd a b = js_add rnd a (js_neg b)"

fun js_less :: "jsnum \<Rightarrow> jsnum \<Rightarrow> bool" where
  "js_less (Finite a) (Finite b) = (a < b)"
| "js_less NaN b = False"
| "js_less a NaN = False"
| "js_less a NegInf = False"
| "js_less PosInf b = False"
| "js_less a PosInf = True"
| "js_less NegInf b = True"

text \<open>\<^verbatim>\<open>_.invoke(obj, name, ...args)\<close>: calls the function when there is one.\<close>

definition invoke :: "('f \<Rightarrow> event) \<Rightarrow> 'f option \<Rightarrow> TabBar \<Rightarrow> TabBar" where
  "invoke ev f c = (case f of None \<Rightarrow> c | Some g \<Rightarrow> c\<lparr>events := events c @ [ev g]\<rparr>)"

subsection \<open>The methods of the class\<close>

text \<open>
  The constructor, given the props, and the two things the component takes from where it
  runs: the screen width and the rounding of the arithmetic.
\<close>

definition constructor :: "Props \<Rightarrow> real \<Rightarrow> (real \<Rightarrow> jsnum) \<Rightarrow> TabBar" where
  "constructor p sw rnd =
     \<lparr>props = p,
      state = \<lparr>scrollEnabled = False, currentIndex = selectedIndex p\<rparr>,
      screenWidth = sw,
      round64 = rnd,
      scrollContentWidth = None,
      contentOffset = (0, 0),
      scrollBarCurrent = False,
      itemsRefs = [],
      pending = [],
      timers = [],
      events = []\<rparr>"

text \<open>\<^verbatim>\<open>this.setState(partial, callback)\<close>: React queues the call.\<close>

definition setState :: "TabBar \<Rightarrow> partialState \<Rightarrow> afterCommit option \<Rightarrow> TabBar" where
  "setState c upd cb = c\<lparr>pending := pending c @ [(upd, cb)]\<rparr>"

definition childrenCount :: "TabBar \<Rightarrow> nat" where
  "childrenCount c = length (children (props c))"

text \<open>\<^verbatim>\<open>this.props.containerWidth || Constants.screenWidth\<close>: a width of 0 is falsy.\<close>

definition scrollContainerWidth :: "TabBar \<Rightarrow> real" where
  "scrollContainerWidth c =
     (case containerWidth (props c) of
        None \<Rightarrow> screenWidth c
      | Some w \<Rightarrow> if w = 0 then screenWidth c else w)"

text \<open>\<^verbatim>\<open>_.get(child, 'props.ignore')\<close>: \<^verbatim>\<open>undefined\<close>, which is falsy, when there is no child.\<close>

definition isIgnored :: "TabBar \<Rightarrow> int \<Rightarrow> bool" where
  "isIgnored c index =
     (case nth_opt (children (props c)) index of None \<Rightarrow> False | Some child \<Rightarrow> ignore child)"

text \<open>
  \<^verbatim>\<open>this.scrollContentWidth > this.scrollContainerWidth\<close>: false while the content width is
  \<^verbatim>\<open>undefined\<close>.
\<close>

definition hasOverflow :: "TabBar \<Rightarrow> bool" where
  "hasOverflow c =
     (case scrollContentWidth c of None \<Rightarrow> False | Some w \<Rightarrow> w > scrollContainerWidth c)"

definition shouldBeMarked :: "TabBar \<Rightarrow> int \<Rightarrow> bool" where
  "shouldBeMarked c index =
     (currentIndex (state c) = index \<and> \<not> isIgnored c index \<and> childrenCount c > 1)"

definition updateIndicator :: "TabBar \<Rightarrow> int \<Rightarrow> TabBar" where
  "updateIndicator c index =
     (if \<not> isIgnored c index then setState c (CurrentIndex index) (Some ScrollToSelected)
      else c)"

text \<open>\<^verbatim>\<open>this.scrollBar.current.scrollTo({x, y, animated})\<close>.\<close>

definition scrollTo :: "TabBar \<Rightarrow> jsnum \<Rightarrow> jsnum \<Rightarrow> bool \<Rightarrow> error + TabBar" where
  "scrollTo c x y animated =
     (if scrollBarCurrent c then Inr (c\<lparr>events := events c @ [ScrollTo x y animated]\<rparr>)
      else Inl TypeError)"

text \<open>
  \<^verbatim>\<open>childRef.getLayout()\<close> is called on whatever the array holds at the current index: with
  nothing there the call raises. The two tests and the scroll target are computed as the
  source writes them, operation by operation from left to right:
  \<^verbatim>\<open>(x + width) - contentOffset.x\<close>, \<^verbatim>\<open>(x - scrollContainerWidth) + width\<close> and
  \<^verbatim>\<open>x - contentOffset.x\<close>, each operation rounded.
\<close>

definition scrollToSelected :: "TabBar \<Rightarrow> bool \<Rightarrow> error + TabBar" where
  "scrollToSelected c animated =
     (case nth_opt (itemsRefs c) (currentIndex (state c)) of
        None \<Rightarrow> Inl TypeError
      | Some None \<Rightarrow> Inl TypeError
      | Some (Some (ItemRef None)) \<Rightarrow> Inr c
      | Some (Some (ItemRef (Some childLayout))) \<Rightarrow>
          (let x = Finite (layout_x childLayout);
               width = Finite (layout_width childLayout);
               offset_x = Finite (fst (contentOffset c));
               container = Finite (scrollContainerWidth c);
               rnd = round64 c
           in if hasOverflow c then
                if js_less container (js_sub rnd (js_add rnd x width) offset_x)
                then scrollTo c (js_add rnd (js_sub rnd x container) width) (Finite 0) animated
                else if js_less (js_sub rnd x offset_x) (Finite 0)
                then scrollTo c x (Finite 0) animated
                else Inr c
              else Inr c))"

definition onChangeIndex :: "TabBar \<Rightarrow> int \<Rightarrow> TabBar" where
  "onChangeIndex c index =
     invoke (\<lambda>f. OnChangeIndex f index) (onChangeIndex_prop (props c)) c"

definition onTabSelected :: "TabBar \<Rightarrow> int \<Rightarrow> TabBar" where
  "onTabSelected c index =
     invoke (\<lambda>f. OnTabSelected f index) (onTabSelected_prop (props c)) c"

text \<open>\<^verbatim>\<open>onItemPress\<close> moves the indicator and hands its closure to \<^verbatim>\<open>setTimeout\<close>.\<close>

definition onItemPress :: "TabBar \<Rightarrow> int \<Rightarrow> ItemProps \<Rightarrow> TabBar" where
  "onItemPress c index iprops =
     (let c1 = updateIndicator c index
      in c1\<lparr>timers := timers c1 @ [(index, iprops)]\<rparr>)"

text \<open>The body of the closure, run when the timer fires.\<close>

definition onItemPress_timeout :: "TabBar \<Rightarrow> int \<times> ItemProps \<Rightarrow> TabBar" where
  "onItemPress_timeout c task =
     (let index = fst task;
          iprops = snd task;
          c1 = (if \<not> ignore iprops then onChangeIndex c index else c);
          c2 = onTabSelected c1 index
      in invoke OnPress (onPress iprops) c2)"

definition onScroll :: "TabBar \<Rightarrow> real \<times> real \<Rightarrow> TabBar" where
  "onScroll c offset = c\<lparr>contentOffset := offset\<rparr>"

text \<open>\<^verbatim>\<open>minTabsForScroll || MIN_TABS_FOR_SCROLL\<close>: 0 is falsy.\<close>

definition MIN_TABS_FOR_SCROLL :: int where
  "MIN_TABS_FOR_SCROLL = 1"

definition minChildrenCount :: "TabBar \<Rightarrow> int" where
  "minChildrenCount c =
     (case minTabsForScroll (props c) of
        None \<Rightarrow> MIN_TABS_FOR_SCROLL
      | Some m \<Rightarrow> if m = 0 then MIN_TABS_FOR_SCROLL else m)"

definition onContentSizeChange :: "TabBar \<Rightarrow> real \<Rightarrow> TabBar" where
  "onContentSizeChange c width =
     (if scrollContentWidth c \<noteq> Some width then
        (let c1 = c\<lparr>scrollContentWidth := Some width\<rparr>
         in if hasOverflow c1 \<and> int (childrenCount c1) > minChildrenCount c1
            then setState c1 (ScrollEnabled True) None
            else c1)
      else c)"

definition componentDidUpdate :: "TabBar \<Rightarrow> Props \<Rightarrow> State \<Rightarrow> TabBar" where
  "componentDidUpdate c prevProps prevState =
     (let prevChildrenCount = length (children prevProps);
          c1 = (if childrenCount c < prevChildrenCount then updateIndicator c 0 else c);
          isIndexManuallyChanged =
            (selectedIndex (props c1) \<noteq> currentIndex prevState
             \<and> selectedIndex prevProps \<noteq> selectedIndex (props c1))
      in if isIndexManuallyChanged then updateIndicator c1 (selectedIndex (props c1)) else c1)"

text \<open>
  What \<^verbatim>\<open>renderChildren\<close> injects into the clone of a child: the selection flag, the
  arguments its \<^verbatim>\<open>onPress\<close> closure passes to \<^verbatim>\<open>onItemPress\<close>, and the accessibility label.
  (The indicator style and the dark-theme flag are passed through unchanged.)
\<close>

text \<open>
  \<open>cloneElement c (index, child)\<close> is the body of the callback \<^verbatim>\<open>renderChildren\<close> maps over
  the children: it computes \<^verbatim>\<open>accessLabel\<close> and calls \<^verbatim>\<open>React.cloneElement\<close>. The last
  operand of the \<^verbatim>\<open>||\<close> chain is a string, so the chain always yields one.
\<close>

record Clone =
  selected :: bool
  onPress_args :: "int \<times> ItemProps"
  clone_accessibilityLabel :: string

definition cloneElement :: "TabBar \<Rightarrow> nat \<times> ItemProps \<Rightarrow> Clone" where
  "cloneElement c ic =
     (let index = fst ic;
          child = snd ic;
          accessLabel =
            (case js_or (js_or (accessibilityLabel child) (label child)) (Some []) of
               None \<Rightarrow> [] | Some s \<Rightarrow> s)
      in \<lparr>selected = shouldBeMarked c (int index),
          onPress_args = (int index, child),
          clone_accessibilityLabel =
            accessLabel @ '' '' @ string_of_nat (index + 1) @ '' out of ''
              @ string_of_nat (childrenCount c)\<rparr>)"

text \<open>\<^verbatim>\<open>renderChildren\<close> empties \<^verbatim>\<open>itemsRefs\<close> and returns the clones.\<close>

definition renderChildren :: "TabBar \<Rightarrow> TabBar \<times> Clone list" where
  "renderChildren c =
     (c\<lparr>itemsRefs := []\<rparr>, map (cloneElement c) (enumerate 0 (children (props c))))"

text \<open>The \<^verbatim>\<open>ref\<close> callback of the clone at \<open>index\<close>: \<^verbatim>\<open>this.itemsRefs[index] = r\<close>.\<close>

definition attachRef :: "TabBar \<Rightarrow> nat \<Rightarrow> itemRef option \<Rightarrow> TabBar" where
  "attachRef c index r = c\<lparr>itemsRefs := js_assign (itemsRefs c) index r\<rparr>"

subsection \<open>What React does\<close>

text \<open>
  Inside an event handler or a lifecycle method React only queues \<^verbatim>\<open>setState\<close> calls. When
  the handler has returned it merges the queued partial states in order, renders, commits,
  and then runs the queued callbacks in order. The render of a state change leaves the
  props as they are, so the \<^verbatim>\<open>componentDidUpdate\<close> that follows it queues nothing (lemma
  \<open>componentDidUpdate_same_props\<close> below), and its commit attaches again the references of
  the same items, so \<open>itemsRefs\<close> is after the commit what it was before.
\<close>

fun merge :: "State \<Rightarrow> partialState \<Rightarrow> State" where
  "merge s (CurrentIndex i) = s\<lparr>currentIndex := i\<rparr>"
| "merge s (ScrollEnabled b) = s\<lparr>scrollEnabled := b\<rparr>"

definition commitState :: "TabBar \<Rightarrow> TabBar" where
  "commitState c = c\<lparr>state := foldl merge (state c) (map fst (pending c)), pending := []\<rparr>"

fun runCallbacks :: "afterCommit list \<Rightarrow> TabBar \<Rightarrow> error + TabBar" where
  "runCallbacks [] c = Inr c"
| "runCallbacks (ScrollToSelected # cbs) c =
     (case scrollToSelected c True of Inl e \<Rightarrow> Inl e | Inr c' \<Rightarrow> runCallbacks cbs c')"

definition flush :: "TabBar \<Rightarrow> error + TabBar" where
  "flush c = runCallbacks (List.map_filter snd (pending c)) (commitState c)"

text \<open>
  The things that can happen to a mounted tab bar. \<open>Press i\<close>: the user presses the rendered
  tab \<open>i\<close>, whose clone calls \<^verbatim>\<open>onItemPress(i, child.props)\<close>. \<open>Update p refs\<close>: the parent
  renders the tab bar with new props; React renders, attaches the references \<open>refs\<close> of the
  new children and calls \<^verbatim>\<open>componentDidUpdate\<close> with the props and state of before.
  \<open>Timeout\<close>: the oldest timer fires.
\<close>

datatype action =
    Press nat
  | Scroll real real
  | ContentSizeChange real
  | Update Props "itemRef option list"
  | Render
  | AttachRef nat "itemRef option"
  | AttachScrollBar
  | Timeout

fun step :: "TabBar \<Rightarrow> action \<Rightarrow> error + TabBar" where
  "step c (Press i) =
     (if i < length (children (props c))
      then flush (onItemPress c (int i) (children (props c) ! i))
      else Inr c)"
| "step c (Scroll x y) = Inr (onScroll c (x, y))"
| "step c (ContentSizeChange w) = flush (onContentSizeChange c w)"
| "step c (Update p refs) =
     flush (componentDidUpdate (c\<lparr>props := p, itemsRefs := refs\<rparr>) (props c) (state c))"
| "step c Render = Inr (fst (renderChildren c))"
| "step c (AttachRef i r) = Inr (attachRef c i r)"
| "step c AttachScrollBar = Inr (c\<lparr>scrollBarCurrent := True\<rparr>)"
| "step c Timeout =
     (case timers c of
        [] \<Rightarrow> Inr c
      | task # rest \<Rightarrow> Inr (onItemPress_timeout (c\<lparr>timers := rest\<rparr>) task))"

text \<open>A run stops at the first exception: React unmounts a component that raises.\<close>

fun steps :: "TabBar \<Rightarrow> action list \<Rightarrow> error + TabBar" where
  "steps c [] = Inr c"
| "steps c (a # as) = (case step c a of Inl e \<Rightarrow> Inl e | Inr c' \<Rightarrow> steps c' as)"

subsection \<open>A tab bar to compute with\<close>

text \<open>
  Three tabs, the middle one ignored, in a container 300 wide; each tab is 200 wide, so the
  content is 600 wide and overflows.
\<close>

definition ex_item :: "string \<Rightarrow> bool \<Rightarrow> ItemProps" where
  "ex_item l ig =
     \<lparr>ignore = ig, label = Some l, accessibilityLabel = None, onPress = Some (''press '' @ l)\<rparr>"

definition ex_props :: Props where
  "ex_props =
     \<lparr>minTabsForScroll = None, selectedIndex = 0,
      onChangeIndex_prop = Some ''change'', onTabSelected_prop = Some ''select'',
      containerWidth = Some 300,
      children = [ex_item ''a'' False, ex_item ''b'' True, ex_item ''c'' False]\<rparr>"

definition ex_refs :: "itemRef option list" where
  "ex_refs =
     [Some (ItemRef (Some \<lparr>layout_x = 0, layout_width = 200\<rparr>)),
      Some (ItemRef (Some \<lparr>layout_x = 200, layout_width = 200\<rparr>)),
      Some (ItemRef (Some \<lparr>layout_x = 400, layout_width = 200\<rparr>))]"

text \<open>
  Every number of the examples is a small integer, and so is every sum and difference the
  code forms of them: the engine returns each exactly.
\<close>

definition exact :: "real \<Rightarrow> jsnum" where
  "exact r = Finite r"

definition ex_mounted :: TabBar where
  "ex_mounted =
     (constructor ex_props 400 exact)
       \<lparr>scrollBarCurrent := True, itemsRefs := ex_refs, scrollContentWidth := Some 600\<rparr>"

definition ex_single :: Props where
  "ex_single = ex_props\<lparr>children := [ex_item ''a'' False]\<rparr>"

text \<open>Other props for the same tab bar.\<close>

definition ex_two :: Props where
  "ex_two = ex_props\<lparr>children := [ex_item ''a'' False, ex_item ''b'' False], selectedIndex := 1\<rparr>"

definition ex_two_ignored :: Props where
  "ex_two_ignored = ex_props\<lparr>children := [ex_item ''a'' True, ex_item ''b'' False]\<rparr>"

definition ex_none :: Props where
  "ex_none = ex_props\<lparr>children := []\<rparr>"

definition ex_min5 :: Props where
  "ex_min5 = ex_props\<lparr>minTabsForScroll := Some 5\<rparr>"

definition ex_min0 :: Props where
  "ex_min0 = ex_single\<lparr>minTabsForScroll := Some 0\<rparr>"

text \<open>
  A layout with a fractional width. The width, the container width and the sum
  \<open>591 + width\<close> are written as the fractions they are; the width and the container width
  are the doubles printed \<^verbatim>\<open>829.6666666666666\<close> and \<^verbatim>\<open>1417.6666666666665\<close>. The sum is not a
  double: binary64 rounds it to the double printed \<^verbatim>\<open>1420.6666666666665\<close>, and \<open>ex_rounding\<close>
  does so; every other result of the example is a double and is returned as it is.
\<close>

definition ex_rounding :: "real \<Rightarrow> jsnum" where
  "ex_rounding r =
     (if r = 12496316153550165 / 8796093022208 then Finite (3124079038387541 / 2199023255552)
      else Finite r)"

definition ex_fractional :: TabBar where
  "ex_fractional =
     (constructor (ex_props\<lparr>containerWidth := Some (3117481968620885 / 2199023255552)\<rparr>)
        400 ex_rounding)
       \<lparr>scrollBarCurrent := True,
        itemsRefs :=
          [Some (ItemRef (Some \<lparr>layout_x = 591,
                                 layout_width = 7297825177425237 / 8796093022208\<rparr>))],
        scrollContentWidth := Some 2000,
        contentOffset := (3, 0)\<rparr>"

definition ex_empty_label :: Props where
  "ex_empty_label =
     ex_props\<lparr>children :=
       [\<lparr>ignore = False, label = Some ''Home'', accessibilityLabel = Some [], onPress = None\<rparr>]\<rparr>"

subsection \<open>The label as the specification words it\<close>

text \<open>
  The specification's sentence on the accessibility label takes the child's own
  \<^verbatim>\<open>accessibilityLabel\<close> "if present", else its \<^verbatim>\<open>label\<close>, else the empty string. Read to
  the letter, a prop that is present counts even when it is the empty string.
\<close>

definition label_if_present :: "ItemProps \<Rightarrow> string" where
  "label_if_present child =
     (case accessibilityLabel child of
        Some a \<Rightarrow> a
      | None \<Rightarrow> (case label child of Some l \<Rightarrow> l | None \<Rightarrow> []))"

section \<open>Properties\<close>

subsection \<open>Arithmetic on finite operands\<close>

lemma exact_apply [simp]: "exact r = Finite r"
  by (simp add: exact_def)

lemma js_sub_finite [simp]: "js_sub rnd (Finite a) (Finite b) = rnd (a - b)"
  by (simp add: js_sub_def)

subsection \<open>Selection mark\<close>

lemma nth_opt_int: "i < length xs \<Longrightarrow> nth_opt xs (int i) = Some (xs ! i)"
  by (simp add: nth_opt_def)

lemma isIgnored_child:
  "i < length (children (props c)) \<Longrightarrow> isIgnored c (int i) = ignore (children (props c) ! i)"
  by (simp add: isIgnored_def nth_opt_int)

lemma renderChildren_nth:
  "i < length (children (props c)) \<Longrightarrow>
   snd (renderChildren c) ! i = cloneElement c (i, children (props c) ! i)"
  by (simp add: renderChildren_def nth_enumerate_eq)

lemma selected_cloneElement:
  "selected (cloneElement c ic) = shouldBeMarked c (int (fst ic))"
  by (simp add: cloneElement_def Let_def)

lemma shouldBeMarked_count: "shouldBeMarked c i \<Longrightarrow> 1 < childrenCount c"
  by (simp add: shouldBeMarked_def)

lemma one_child_none_selected:
  assumes "length (children (props c)) = 1" "cl \<in> set (snd (renderChildren c))"
  shows "\<not> selected cl"
proof
  assume sel: "selected cl"
  from assms(2) obtain ic where "cl = cloneElement c ic"
    by (auto simp: renderChildren_def)
  with sel have "shouldBeMarked c (int (fst ic))"
    by (simp add: selected_cloneElement)
  then have "1 < childrenCount c"
    by (rule shouldBeMarked_count)
  with assms(1) show False
    by (simp add: childrenCount_def)
qed

text \<open>
  C7. The clone of the child at index \<open>i\<close> is rendered selected exactly when \<open>i\<close> is the
  current index, the child is not ignored and there is more than one child. With exactly
  one child no clone is selected, whatever the current index.
\<close>

theorem selected_iff:
  "(i < length (children (props c)) \<longrightarrow>
      selected (snd (renderChildren c) ! i)
        = (int i = currentIndex (state c) \<and> \<not> ignore (children (props c) ! i)
           \<and> length (children (props c)) > 1))
   \<and> (length (children (props c)) = 1 \<longrightarrow>
        (\<forall>cl \<in> set (snd (renderChildren c)). \<not> selected cl))"
proof (intro conjI impI ballI)
  assume i: "i < length (children (props c))"
  have "selected (snd (renderChildren c) ! i) = shouldBeMarked c (int i)"
    using i by (simp add: renderChildren_nth selected_cloneElement)
  also have "\<dots> = (int i = currentIndex (state c) \<and> \<not> ignore (children (props c) ! i)
           \<and> length (children (props c)) > 1)"
    using i by (auto simp: shouldBeMarked_def isIgnored_child childrenCount_def)
  finally show "selected (snd (renderChildren c) ! i)
        = (int i = currentIndex (state c) \<and> \<not> ignore (children (props c) ! i)
           \<and> length (children (props c)) > 1)" .
next
  fix cl
  assume "length (children (props c)) = 1" "cl \<in> set (snd (renderChildren c))"
  then show "\<not> selected cl"
    by (rule one_child_none_selected)
qed

theorem selected_iff_witness:
  "selected (snd (renderChildren (constructor ex_props 400 exact)) ! 0)
   \<and> \<not> selected (snd (renderChildren (constructor ex_props 400 exact)) ! 2)
   \<and> \<not> selected (snd (renderChildren (constructor ex_single 400 exact)) ! 0)"
proof (intro conjI)
  show "selected (snd (renderChildren (constructor ex_props 400 exact)) ! 0)"
    using selected_iff[of 0 "constructor ex_props 400 exact"]
    by (simp add: constructor_def ex_props_def ex_item_def)
  show "\<not> selected (snd (renderChildren (constructor ex_props 400 exact)) ! 2)"
    using selected_iff[of 2 "constructor ex_props 400 exact"]
    by (simp add: constructor_def ex_props_def ex_item_def)
  have "snd (renderChildren (constructor ex_single 400 exact)) ! 0
          \<in> set (snd (renderChildren (constructor ex_single 400 exact)))"
    by (simp add: renderChildren_def constructor_def ex_single_def ex_props_def)
  then show "\<not> selected (snd (renderChildren (constructor ex_single 400 exact)) ! 0)"
    using selected_iff[of 0 "constructor ex_single 400 exact"]
    by (simp add: constructor_def ex_single_def ex_props_def)
qed

subsection \<open>The runtime between two events\<close>

text \<open>
  Between two events no \<^verbatim>\<open>setState\<close> call is waiting: \<open>pending c = []\<close>. The callbacks that
  run after a commit only add events.
\<close>

lemma pending_nil_update: "pending c = [] \<Longrightarrow> c\<lparr>pending := []\<rparr> = c"
  by (cases c) simp

lemma commitState_nil: "pending c = [] \<Longrightarrow> commitState c = c"
  by (cases c) (simp add: commitState_def)

lemma flush_nil: "pending c = [] \<Longrightarrow> flush c = Inr c"
  by (simp add: flush_def commitState_nil List.map_filter_simps)

lemma scrollTo_Inr:
  "scrollTo c x y a = Inr c' \<Longrightarrow> c' = c\<lparr>events := events c @ [ScrollTo x y a]\<rparr>"
  by (auto simp: scrollTo_def split: if_splits)

lemma scrollToSelected_Inr:
  "scrollToSelected c a = Inr c' \<Longrightarrow> \<exists>es. c' = c\<lparr>events := events c @ es\<rparr>"
  unfolding scrollToSelected_def Let_def
  by (auto split: option.splits itemRef.splits if_splits dest!: scrollTo_Inr intro: exI[of _ "[]"])

lemma runCallbacks_Inr:
  "runCallbacks cbs c = Inr c' \<Longrightarrow> \<exists>es. c' = c\<lparr>events := events c @ es\<rparr>"
proof (induction cbs arbitrary: c)
  case Nil
  then show ?case by (auto intro: exI[of _ "[]"])
next
  case (Cons cb cbs)
  obtain c1 where c1: "scrollToSelected c True = Inr c1" and rest: "runCallbacks cbs c1 = Inr c'"
    using Cons.prems by (cases cb) (auto split: sum.splits)
  from scrollToSelected_Inr[OF c1] obtain es1 where "c1 = c\<lparr>events := events c @ es1\<rparr>" ..
  moreover from Cons.IH[OF rest] obtain es2 where "c' = c1\<lparr>events := events c1 @ es2\<rparr>" ..
  ultimately have "c' = c\<lparr>events := events c @ (es1 @ es2)\<rparr>" by simp
  then show ?case ..
qed

lemma flush_Inr:
  assumes "flush c = Inr c'"
  shows "\<exists>es. c' = (commitState c)\<lparr>events := events c @ es\<rparr>"
proof -
  from assms obtain es where "c' = (commitState c)\<lparr>events := events (commitState c) @ es\<rparr>"
    unfolding flush_def by (blast dest: runCallbacks_Inr)
  then show ?thesis by (auto simp: commitState_def)
qed

lemma flush_state:
  "flush c = Inr c' \<Longrightarrow> state c' = foldl merge (state c) (map fst (pending c))"
  by (auto dest!: flush_Inr simp: commitState_def)

lemma flush_commit_state: "flush d = Inr c' \<Longrightarrow> state c' = state (commitState d)"
  by (auto dest!: flush_Inr)

lemma flush_pending: "flush c = Inr c' \<Longrightarrow> pending c' = []"
  by (auto dest!: flush_Inr simp: commitState_def)

lemma flush_props: "flush c = Inr c' \<Longrightarrow> props c' = props c"
  by (auto dest!: flush_Inr simp: commitState_def)

lemma flush_screenWidth: "flush c = Inr c' \<Longrightarrow> screenWidth c' = screenWidth c"
  by (auto dest!: flush_Inr simp: commitState_def)

lemma flush_scrollContentWidth:
  "flush c = Inr c' \<Longrightarrow> scrollContentWidth c' = scrollContentWidth c"
  by (auto dest!: flush_Inr simp: commitState_def)

lemma updateIndicator_commit:
  "\<not> isIgnored c i \<Longrightarrow> pending c = [] \<Longrightarrow>
   commitState (updateIndicator c i) = c\<lparr>state := (state c)\<lparr>currentIndex := i\<rparr>\<rparr>"
  by (cases c) (simp add: updateIndicator_def setState_def commitState_def)

lemma updateIndicator_ignored: "isIgnored c i \<Longrightarrow> updateIndicator c i = c"
  by (simp add: updateIndicator_def)

lemma flush_updateIndicator:
  "\<not> isIgnored c i \<Longrightarrow> pending c = [] \<Longrightarrow>
   flush (updateIndicator c i) = scrollToSelected (c\<lparr>state := (state c)\<lparr>currentIndex := i\<rparr>\<rparr>) True"
  using updateIndicator_commit[of c i]
  by (simp add: flush_def) (simp add: updateIndicator_def setState_def List.map_filter_simps split: sum.splits)

text \<open>
  A render that follows a change of state alone finds the props it had: its
  \<^verbatim>\<open>componentDidUpdate\<close> queues nothing.
\<close>

lemma componentDidUpdate_same_props:
  "componentDidUpdate c (props c) prevState = c"
  by (simp add: componentDidUpdate_def childrenCount_def)

text \<open>
  A render empties \<open>itemsRefs\<close>, and the \<^verbatim>\<open>ref\<close> callbacks of the commit, called in the
  order of the children, fill it with the references they are given. This is the table
  \<open>Update\<close> installs.
\<close>

lemma attach_all_refs:
  "itemsRefs (foldl (\<lambda>d ir. attachRef d (fst ir) (snd ir)) (fst (renderChildren c))
      (enumerate 0 refs)) = refs"
proof -
  have "\<And>d. itemsRefs (foldl (\<lambda>d ir. attachRef d (fst ir) (snd ir)) d
            (enumerate (length (itemsRefs d)) refs)) = itemsRefs d @ refs"
  proof (induction refs)
    case Nil
    then show ?case by simp
  next
    case (Cons r refs)
    have "length (itemsRefs (attachRef d (length (itemsRefs d)) r)) = Suc (length (itemsRefs d))"
      by (simp add: attachRef_def js_assign_def)
    with Cons[of "attachRef d (length (itemsRefs d)) r"] show ?case
      by (simp add: attachRef_def js_assign_def)
  qed
  from this[of "fst (renderChildren c)"] show ?thesis
    by (simp add: renderChildren_def)
qed

subsection \<open>Pressing a tab\<close>

lemma invoke_events:
  "events (invoke ev f c) = events c @ (case f of None \<Rightarrow> [] | Some g \<Rightarrow> [ev g])"
  by (simp add: invoke_def split: option.splits)

lemma invoke_props: "props (invoke ev f c) = props c"
  by (simp add: invoke_def split: option.splits)

text \<open>
  C1, as the code has it. Pressing an ignored tab at index \<open>i\<close> leaves the state as it is
  (\<^verbatim>\<open>updateIndicator\<close> does nothing for an ignored index, so \<open>currentIndex\<close> is not set to
  \<open>i\<close>) and only queues the timer. When the timer fires, \<^verbatim>\<open>onChangeIndex\<close> is not called;
  \<^verbatim>\<open>onTabSelected(i)\<close> and then the item's own \<^verbatim>\<open>onPress\<close> are, each when the caller
  supplied it.
\<close>

theorem press_ignored:
  assumes "i < length (children (props c))"
    and "ignore (children (props c) ! i)"
    and "pending c = []"
  shows "step c (Press i) = Inr (c\<lparr>timers := timers c @ [(int i, children (props c) ! i)]\<rparr>)
    \<and> events (onItemPress_timeout c' (int i, children (props c) ! i))
        = events c'
          @ (case onTabSelected_prop (props c') of None \<Rightarrow> [] | Some f \<Rightarrow> [OnTabSelected f (int i)])
          @ (case onPress (children (props c) ! i) of None \<Rightarrow> [] | Some g \<Rightarrow> [OnPress g])"
proof
  have ign: "isIgnored c (int i)"
    using assms(1,2) by (simp add: isIgnored_child)
  have "pending (onItemPress c (int i) (children (props c) ! i)) = []"
    using ign assms(3) by (simp add: onItemPress_def updateIndicator_ignored)
  then show "step c (Press i) = Inr (c\<lparr>timers := timers c @ [(int i, children (props c) ! i)]\<rparr>)"
    using assms(1) ign by (simp add: flush_nil) (simp add: onItemPress_def updateIndicator_ignored)
next
  show "events (onItemPress_timeout c' (int i, children (props c) ! i))
        = events c'
          @ (case onTabSelected_prop (props c') of None \<Rightarrow> [] | Some f \<Rightarrow> [OnTabSelected f (int i)])
          @ (case onPress (children (props c) ! i) of None \<Rightarrow> [] | Some g \<Rightarrow> [OnPress g])"
    using assms(2)
    by (simp add: onItemPress_timeout_def onTabSelected_def invoke_events Let_def)
qed

theorem press_ignored_witness:
  "step ex_mounted (Press 1) = Inr (ex_mounted\<lparr>timers := [(1, ex_item ''b'' True)]\<rparr>)
   \<and> events (onItemPress_timeout ex_mounted (1, ex_item ''b'' True))
       = [OnTabSelected ''select'' 1, OnPress ''press b'']"
  using press_ignored[of 1 ex_mounted ex_mounted]
  by (simp add: ex_mounted_def ex_props_def ex_item_def constructor_def)

text \<open>
  The claim as written (an ignored tab becomes the current index) fails: with the first
  tab current, pressing the ignored second tab leaves the current index at 0.
\<close>

theorem press_ignored_counterexample:
  "ignore (children ex_props ! 1)
   \<and> (case step (constructor ex_props 400 exact) (Press 1) of
        Inl e \<Rightarrow> False
      | Inr c' \<Rightarrow> currentIndex (state c') = 0 \<and> currentIndex (state c') \<noteq> 1)"
  by (simp add: constructor_def ex_props_def ex_item_def onItemPress_def updateIndicator_def
      isIgnored_def nth_opt_def flush_def commitState_def List.map_filter_simps)

text \<open>
  C2. Pressing a tab at index \<open>i\<close> that is not ignored sets \<open>currentIndex\<close> to \<open>i\<close> in the
  commit of the press itself, which then runs the auto-scroll step, and queues the timer.
  When the timer fires it calls \<^verbatim>\<open>onChangeIndex(i)\<close>, then \<^verbatim>\<open>onTabSelected(i)\<close>, then the
  item's own \<^verbatim>\<open>onPress\<close>, in that order, each when the caller supplied it.
\<close>

theorem press_not_ignored:
  assumes "i < length (children (props c))"
    and "\<not> ignore (children (props c) ! i)"
    and "pending c = []"
  shows "commitState (onItemPress c (int i) (children (props c) ! i))
           = c\<lparr>state := (state c)\<lparr>currentIndex := int i\<rparr>,
               timers := timers c @ [(int i, children (props c) ! i)]\<rparr>
    \<and> step c (Press i)
         = scrollToSelected
             (c\<lparr>state := (state c)\<lparr>currentIndex := int i\<rparr>,
                timers := timers c @ [(int i, children (props c) ! i)]\<rparr>) True
    \<and> events (onItemPress_timeout c' (int i, children (props c) ! i))
        = events c'
          @ (case onChangeIndex_prop (props c') of None \<Rightarrow> [] | Some f \<Rightarrow> [OnChangeIndex f (int i)])
          @ (case onTabSelected_prop (props c') of None \<Rightarrow> [] | Some f \<Rightarrow> [OnTabSelected f (int i)])
          @ (case onPress (children (props c) ! i) of None \<Rightarrow> [] | Some g \<Rightarrow> [OnPress g])"
proof (intro conjI)
  let ?ch = "children (props c) ! i"
  have ign: "\<not> isIgnored c (int i)"
    using assms(1,2) by (simp add: isIgnored_child)
  show commit: "commitState (onItemPress c (int i) ?ch)
           = c\<lparr>state := (state c)\<lparr>currentIndex := int i\<rparr>, timers := timers c @ [(int i, ?ch)]\<rparr>"
    using ign assms(3)
    by (cases c) (simp add: onItemPress_def updateIndicator_def setState_def commitState_def)
  have "List.map_filter snd (pending (onItemPress c (int i) ?ch)) = [ScrollToSelected]"
    using ign assms(3)
    by (simp add: onItemPress_def updateIndicator_def setState_def List.map_filter_simps)
  then show "step c (Press i)
         = scrollToSelected
             (c\<lparr>state := (state c)\<lparr>currentIndex := int i\<rparr>, timers := timers c @ [(int i, ?ch)]\<rparr>) True"
    using assms(1) commit by (simp add: flush_def split: sum.splits)
  show "events (onItemPress_timeout c' (int i, ?ch))
        = events c'
          @ (case onChangeIndex_prop (props c') of None \<Rightarrow> [] | Some f \<Rightarrow> [OnChangeIndex f (int i)])
          @ (case onTabSelected_prop (props c') of None \<Rightarrow> [] | Some f \<Rightarrow> [OnTabSelected f (int i)])
          @ (case onPress ?ch of None \<Rightarrow> [] | Some g \<Rightarrow> [OnPress g])"
    using assms(2)
    by (simp add: onItemPress_timeout_def onTabSelected_def onChangeIndex_def invoke_events
        invoke_props Let_def)
qed

theorem press_not_ignored_witness:
  "currentIndex (state (commitState (onItemPress ex_mounted 2 (ex_item ''c'' False)))) = 2
   \<and> step ex_mounted (Press 2)
       = Inr (ex_mounted\<lparr>state := \<lparr>scrollEnabled = False, currentIndex = 2\<rparr>,
                timers := [(2, ex_item ''c'' False)],
                events := [ScrollTo (Finite 300) (Finite 0) True]\<rparr>)
   \<and> events (onItemPress_timeout ex_mounted (2, ex_item ''c'' False))
       = [OnChangeIndex ''change'' 2, OnTabSelected ''select'' 2, OnPress ''press c'']
   \<and> (case steps ex_mounted [Press 2, Timeout] of
        Inl e \<Rightarrow> False
      | Inr c' \<Rightarrow>
          currentIndex (state c') = 2
          \<and> events c' = [ScrollTo (Finite 300) (Finite 0) True, OnChangeIndex ''change'' 2,
                          OnTabSelected ''select'' 2, OnPress ''press c''])"
  using press_not_ignored[of 2 ex_mounted ex_mounted]
  by (simp add: ex_mounted_def ex_props_def ex_item_def ex_refs_def constructor_def
      scrollToSelected_def nth_opt_def hasOverflow_def scrollContainerWidth_def scrollTo_def
      onItemPress_timeout_def onChangeIndex_def onTabSelected_def invoke_def Let_def)

subsection \<open>Auto-scroll\<close>

lemma scrollContainerWidth_state [simp]:
  "scrollContainerWidth (c\<lparr>state := s\<rparr>) = scrollContainerWidth c"
  by (simp add: scrollContainerWidth_def split: option.splits)

lemma hasOverflow_state [simp]: "hasOverflow (c\<lparr>state := s\<rparr>) = hasOverflow c"
  by (simp add: hasOverflow_def split: option.splits)

text \<open>
  C3, as the code has it. When the indicator moves to index \<open>i\<close>, the layout \<open>l\<close> of item
  \<open>i\<close> is known and the content is wider than the container: if
  \<^verbatim>\<open>(l.x + l.width) - contentOffset.x\<close> exceeds the container width, one scroll to
  \<^verbatim>\<open>x = (l.x - containerWidth) + l.width\<close> is issued; otherwise, if
  \<^verbatim>\<open>l.x - contentOffset.x\<close> is negative, one scroll to \<open>x = l.x\<close>; otherwise none. Each sum
  and difference is the double the engine returns for it. Where the engine returns all of
  them exactly (second part), the tests and the target are the exact ones.
\<close>

theorem auto_scroll:
  assumes "\<not> isIgnored c i"
    and "pending c = []"
    and "nth_opt (itemsRefs c) i = Some (Some (ItemRef (Some l)))"
    and "hasOverflow c"
    and "scrollBarCurrent c"
  shows "flush (updateIndicator c i)
     = Inr (c\<lparr>state := (state c)\<lparr>currentIndex := i\<rparr>,
              events := events c @
                (if js_less (Finite (scrollContainerWidth c))
                      (js_sub (round64 c)
                         (js_add (round64 c) (Finite (layout_x l)) (Finite (layout_width l)))
                         (Finite (fst (contentOffset c))))
                 then [ScrollTo
                         (js_add (round64 c)
                            (js_sub (round64 c) (Finite (layout_x l))
                               (Finite (scrollContainerWidth c)))
                            (Finite (layout_width l)))
                         (Finite 0) True]
                 else if js_less
                      (js_sub (round64 c) (Finite (layout_x l)) (Finite (fst (contentOffset c))))
                      (Finite 0)
                 then [ScrollTo (Finite (layout_x l)) (Finite 0) True]
                 else [])\<rparr>)
    \<and> (round64 c (layout_x l + layout_width l) = Finite (layout_x l + layout_width l)
        \<and> round64 c (layout_x l + layout_width l - fst (contentOffset c))
            = Finite (layout_x l + layout_width l - fst (contentOffset c))
        \<and> round64 c (layout_x l - scrollContainerWidth c)
            = Finite (layout_x l - scrollContainerWidth c)
        \<and> round64 c (layout_x l - scrollContainerWidth c + layout_width l)
            = Finite (layout_x l - scrollContainerWidth c + layout_width l)
        \<and> round64 c (layout_x l - fst (contentOffset c))
            = Finite (layout_x l - fst (contentOffset c))
       \<longrightarrow> flush (updateIndicator c i)
         = Inr (c\<lparr>state := (state c)\<lparr>currentIndex := i\<rparr>,
                  events := events c @
                    (if layout_x l + layout_width l - fst (contentOffset c)
                          > scrollContainerWidth c
                     then [ScrollTo
                             (Finite (layout_x l - scrollContainerWidth c + layout_width l))
                             (Finite 0) True]
                     else if layout_x l - fst (contentOffset c) < 0
                     then [ScrollTo (Finite (layout_x l)) (Finite 0) True]
                     else [])\<rparr>))"
proof -
  let ?c = "c\<lparr>state := (state c)\<lparr>currentIndex := i\<rparr>\<rparr>"
  let ?es = "if js_less (Finite (scrollContainerWidth c))
                      (js_sub (round64 c)
                         (js_add (round64 c) (Finite (layout_x l)) (Finite (layout_width l)))
                         (Finite (fst (contentOffset c))))
                 then [ScrollTo
                         (js_add (round64 c)
                            (js_sub (round64 c) (Finite (layout_x l))
                               (Finite (scrollContainerWidth c)))
                            (Finite (layout_width l)))
                         (Finite 0) True]
                 else if js_less
                      (js_sub (round64 c) (Finite (layout_x l)) (Finite (fst (contentOffset c))))
                      (Finite 0)
                 then [ScrollTo (Finite (layout_x l)) (Finite 0) True]
                 else []"
  have "flush (updateIndicator c i) = scrollToSelected ?c True"
    using assms(1,2) by (rule flush_updateIndicator)
  also have "\<dots> = Inr (?c\<lparr>events := events c @ ?es\<rparr>)"
    using assms(3,4,5) by (simp add: scrollToSelected_def scrollTo_def Let_def)
  finally have engine: "flush (updateIndicator c i)
      = Inr (c\<lparr>state := (state c)\<lparr>currentIndex := i\<rparr>, events := events c @ ?es\<rparr>)"
    by simp
  show ?thesis
  proof (intro conjI impI)
    show "flush (updateIndicator c i)
      = Inr (c\<lparr>state := (state c)\<lparr>currentIndex := i\<rparr>, events := events c @ ?es\<rparr>)"
      by (rule engine)
  next
    assume "round64 c (layout_x l + layout_width l) = Finite (layout_x l + layout_width l)
        \<and> round64 c (layout_x l + layout_width l - fst (contentOffset c))
            = Finite (layout_x l + layout_width l - fst (contentOffset c))
        \<and> round64 c (layout_x l - scrollContainerWidth c)
            = Finite (layout_x l - scrollContainerWidth c)
        \<and> round64 c (layout_x l - scrollContainerWidth c + layout_width l)
            = Finite (layout_x l - scrollContainerWidth c + layout_width l)
        \<and> round64 c (layout_x l - fst (contentOffset c))
            = Finite (layout_x l - fst (contentOffset c))"
    then show "flush (updateIndicator c i)
         = Inr (c\<lparr>state := (state c)\<lparr>currentIndex := i\<rparr>,
                  events := events c @
                    (if layout_x l + layout_width l - fst (contentOffset c)
                          > scrollContainerWidth c
                     then [ScrollTo
                             (Finite (layout_x l - scrollContainerWidth c + layout_width l))
                             (Finite 0) True]
                     else if layout_x l - fst (contentOffset c) < 0
                     then [ScrollTo (Finite (layout_x l)) (Finite 0) True]
                     else [])\<rparr>)"
      by (simp add: engine)
  qed
qed

theorem auto_scroll_witness:
  "flush (updateIndicator ex_mounted 2)
     = Inr (ex_mounted\<lparr>state := \<lparr>scrollEnabled = False, currentIndex = 2\<rparr>,
              events := [ScrollTo (Finite 300) (Finite 0) True]\<rparr>)
   \<and> flush (updateIndicator (ex_mounted\<lparr>contentOffset := (300, 0)\<rparr>) 0)
     = Inr (ex_mounted\<lparr>contentOffset := (300, 0),
              state := \<lparr>scrollEnabled = False, currentIndex = 0\<rparr>,
              events := [ScrollTo (Finite 0) (Finite 0) True]\<rparr>)
   \<and> flush (updateIndicator (ex_mounted\<lparr>contentOffset := (300, 0)\<rparr>) 2)
     = Inr (ex_mounted\<lparr>contentOffset := (300, 0),
              state := \<lparr>scrollEnabled = False, currentIndex = 2\<rparr>\<rparr>)"
proof (intro conjI)
  show "flush (updateIndicator ex_mounted 2)
     = Inr (ex_mounted\<lparr>state := \<lparr>scrollEnabled = False, currentIndex = 2\<rparr>,
              events := [ScrollTo (Finite 300) (Finite 0) True]\<rparr>)"
    using auto_scroll[of ex_mounted 2 "\<lparr>layout_x = 400, layout_width = 200\<rparr>"]
    by (simp add: ex_mounted_def ex_props_def ex_item_def ex_refs_def constructor_def
        isIgnored_def nth_opt_def hasOverflow_def scrollContainerWidth_def)
  show "flush (updateIndicator (ex_mounted\<lparr>contentOffset := (300, 0)\<rparr>) 0)
     = Inr (ex_mounted\<lparr>contentOffset := (300, 0),
              state := \<lparr>scrollEnabled = False, currentIndex = 0\<rparr>,
              events := [ScrollTo (Finite 0) (Finite 0) True]\<rparr>)"
    using auto_scroll[of "ex_mounted\<lparr>contentOffset := (300, 0)\<rparr>" 0
        "\<lparr>layout_x = 0, layout_width = 200\<rparr>"]
    by (simp add: ex_mounted_def ex_props_def ex_item_def ex_refs_def constructor_def
        isIgnored_def nth_opt_def hasOverflow_def scrollContainerWidth_def)
  show "flush (updateIndicator (ex_mounted\<lparr>contentOffset := (300, 0)\<rparr>) 2)
     = Inr (ex_mounted\<lparr>contentOffset := (300, 0),
              state := \<lparr>scrollEnabled = False, currentIndex = 2\<rparr>\<rparr>)"
    using auto_scroll[of "ex_mounted\<lparr>contentOffset := (300, 0)\<rparr>" 2
        "\<lparr>layout_x = 400, layout_width = 200\<rparr>"]
    by (simp add: ex_mounted_def ex_props_def ex_item_def ex_refs_def constructor_def
        isIgnored_def nth_opt_def hasOverflow_def scrollContainerWidth_def)
qed

text \<open>
  The claim as written compares the exact right edge with the container width. For an item
  at \<open>x = 591\<close> of width \<^verbatim>\<open>829.6666666666666\<close>, at the scroll offset 3 in a container
  \<^verbatim>\<open>1417.6666666666665\<close> wide, the exact right edge seen from the offset lies beyond the
  container width, yet no scroll is issued: the sum \<^verbatim>\<open>x + width\<close> is rounded to
  \<^verbatim>\<open>1420.6666666666665\<close>, and 3 less is the container width itself.
\<close>

theorem auto_scroll_counterexample:
  "\<not> isIgnored ex_fractional 0
   \<and> hasOverflow ex_fractional
   \<and> nth_opt (itemsRefs ex_fractional) 0
       = Some (Some (ItemRef (Some \<lparr>layout_x = 591,
                                      layout_width = 7297825177425237 / 8796093022208\<rparr>)))
   \<and> 591 + 7297825177425237 / 8796093022208 - fst (contentOffset ex_fractional)
       > scrollContainerWidth ex_fractional
   \<and> flush (updateIndicator ex_fractional 0) = Inr ex_fractional
   \<and> events ex_fractional = []"
proof -
  have "flush (updateIndicator ex_fractional 0)
          = scrollToSelected
              (ex_fractional\<lparr>state := (state ex_fractional)\<lparr>currentIndex := 0\<rparr>\<rparr>) True"
    by (rule flush_updateIndicator)
      (simp_all add: ex_fractional_def ex_props_def ex_item_def constructor_def isIgnored_def
        nth_opt_def)
  also have "\<dots> = Inr ex_fractional"
    by (simp add: scrollToSelected_def ex_fractional_def ex_rounding_def ex_props_def
        constructor_def nth_opt_def hasOverflow_def scrollContainerWidth_def Let_def)
  finally show ?thesis
    by (simp add: ex_fractional_def ex_props_def ex_item_def constructor_def isIgnored_def
        nth_opt_def hasOverflow_def scrollContainerWidth_def)
qed

lemma scrollToSelected_no_layout:
  "nth_opt (itemsRefs c) (currentIndex (state c)) = Some (Some (ItemRef None))
   \<Longrightarrow> scrollToSelected c animated = Inr c"
  by (simp add: scrollToSelected_def)

lemma scrollToSelected_no_ref:
  "nth_opt (itemsRefs c) (currentIndex (state c)) = None
   \<or> nth_opt (itemsRefs c) (currentIndex (state c)) = Some None
   \<Longrightarrow> scrollToSelected c animated = Inl TypeError"
  by (auto simp: scrollToSelected_def)

text \<open>
  C8 asks that the auto-scroll step does nothing, silently, when the item reference or the
  layout is not there. For a missing layout the code does so (\<open>scrollToSelected_no_layout\<close>).
  For a missing reference it does not: \<^verbatim>\<open>childRef.getLayout()\<close> is called without a guard
  and raises (\<open>scrollToSelected_no_ref\<close>). The theorem runs the code on one such input: a
  mounted tab bar with one tab, whose parent then renders it with no tab at all. The count
  went down, so \<^verbatim>\<open>componentDidUpdate\<close> resets the indicator to 0, and the auto-scroll step
  that follows finds no reference at index 0.
\<close>

theorem absent_ref_raises:
  "steps (constructor ex_single 400 exact)
     [Render, AttachRef 0 (Some (ItemRef (Some \<lparr>layout_x = 0, layout_width = 200\<rparr>))),
      AttachScrollBar, Update ex_none []]
   = Inl TypeError"
  by (simp add: constructor_def ex_single_def ex_none_def ex_props_def ex_item_def
      renderChildren_def attachRef_def js_assign_def componentDidUpdate_def childrenCount_def
      updateIndicator_def isIgnored_def nth_opt_def setState_def flush_def commitState_def
      List.map_filter_simps scrollToSelected_def Let_def)

subsection \<open>Enabling the scroll\<close>

text \<open>
  The handlers queue partial states of two kinds only: a current index, or
  \<open>scrollEnabled = true\<close>. So a commit never switches the scroll off.
\<close>

lemma merge_keeps_enabled:
  "u \<noteq> ScrollEnabled False \<Longrightarrow> scrollEnabled s \<Longrightarrow> scrollEnabled (merge s u)"
  by (cases u) auto

lemma foldl_merge_keeps_enabled:
  "\<forall>u \<in> set us. u \<noteq> ScrollEnabled False \<Longrightarrow> scrollEnabled s \<Longrightarrow>
   scrollEnabled (foldl merge s us)"
  by (induction us arbitrary: s) (auto simp: merge_keeps_enabled)

lemma pending_updateIndicator:
  "pending (updateIndicator c i) = pending c
   \<or> pending (updateIndicator c i) = pending c @ [(CurrentIndex i, Some ScrollToSelected)]"
  by (simp add: updateIndicator_def setState_def)

lemma state_updateIndicator [simp]: "state (updateIndicator c i) = state c"
  by (simp add: updateIndicator_def setState_def)

lemma props_updateIndicator [simp]: "props (updateIndicator c i) = props c"
  by (simp add: updateIndicator_def setState_def)

lemma childrenCount_updateIndicator [simp]:
  "childrenCount (updateIndicator c i) = childrenCount c"
  by (simp add: childrenCount_def)

lemma updates_updateIndicator:
  "set (map fst (pending (updateIndicator c i))) \<subseteq> set (map fst (pending c)) \<union> {CurrentIndex i}"
  using pending_updateIndicator[of c i] by auto

lemma updates_onItemPress:
  "set (map fst (pending (onItemPress c i p))) \<subseteq> set (map fst (pending c)) \<union> {CurrentIndex i}"
  using updates_updateIndicator[of c i] by (simp add: onItemPress_def Let_def)

lemma state_onItemPress [simp]: "state (onItemPress c i p) = state c"
  by (simp add: onItemPress_def Let_def)

lemma updates_onContentSizeChange:
  "set (map fst (pending (onContentSizeChange c w)))
     \<subseteq> set (map fst (pending c)) \<union> {ScrollEnabled True}"
  by (auto simp: onContentSizeChange_def setState_def Let_def)

lemma state_onContentSizeChange [simp]: "state (onContentSizeChange c w) = state c"
  by (simp add: onContentSizeChange_def setState_def Let_def)

lemma updates_componentDidUpdate:
  "set (map fst (pending (componentDidUpdate c pp ps)))
     \<subseteq> set (map fst (pending c)) \<union> range CurrentIndex"
proof -
  let ?c1 = "if childrenCount c < length (children pp) then updateIndicator c 0 else c"
  have 1: "set (map fst (pending ?c1)) \<subseteq> set (map fst (pending c)) \<union> range CurrentIndex"
    using updates_updateIndicator[of c 0] by auto
  have "set (map fst (pending (componentDidUpdate c pp ps)))
          \<subseteq> set (map fst (pending ?c1)) \<union> range CurrentIndex"
    using updates_updateIndicator[of ?c1 "selectedIndex (props ?c1)"]
    unfolding componentDidUpdate_def Let_def by (auto split: if_splits)
  with 1 show ?thesis by blast
qed

lemma state_componentDidUpdate [simp]: "state (componentDidUpdate c pp ps) = state c"
  by (simp add: componentDidUpdate_def Let_def)

lemma flush_keeps_enabled:
  assumes "flush c = Inr c'" "scrollEnabled (state c)"
    and "set (map fst (pending c)) \<subseteq> range CurrentIndex \<union> {ScrollEnabled True}"
  shows "scrollEnabled (state c')"
proof -
  have "\<forall>u \<in> set (map fst (pending c)). u \<noteq> ScrollEnabled False"
    using assms(3) by auto
  then show ?thesis
    using assms(1,2) by (simp add: flush_state foldl_merge_keeps_enabled)
qed

lemma step_keeps_enabled:
  assumes "step c a = Inr c'" "pending c = []" "scrollEnabled (state c)"
  shows "scrollEnabled (state c') \<and> pending c' = []"
proof (cases a)
  case (Press i)
  show ?thesis
  proof (cases "i < length (children (props c))")
    case True
    let ?d = "onItemPress c (int i) (children (props c) ! i)"
    have f: "flush ?d = Inr c'" using assms(1) Press True by simp
    have "set (map fst (pending ?d)) \<subseteq> range CurrentIndex \<union> {ScrollEnabled True}"
      using updates_onItemPress[of c "int i" "children (props c) ! i"] assms(2) by auto
    moreover have "scrollEnabled (state ?d)"
      using assms(3) by simp
    ultimately have "scrollEnabled (state c')"
      using f by (blast intro: flush_keeps_enabled)
    then show ?thesis
      using f by (simp add: flush_pending)
  next
    case False
    then show ?thesis using assms Press by simp
  qed
next
  case (Scroll x y)
  then show ?thesis using assms by (auto simp: onScroll_def)
next
  case (ContentSizeChange w)
  let ?d = "onContentSizeChange c w"
  have f: "flush ?d = Inr c'" using assms(1) ContentSizeChange by simp
  have "set (map fst (pending ?d)) \<subseteq> range CurrentIndex \<union> {ScrollEnabled True}"
    using updates_onContentSizeChange[of c w] assms(2) by auto
  moreover have "scrollEnabled (state ?d)"
    using assms(3) by simp
  ultimately have "scrollEnabled (state c')"
    using f by (blast intro: flush_keeps_enabled)
  then show ?thesis
    using f by (simp add: flush_pending)
next
  case (Update p refs)
  let ?d = "componentDidUpdate (c\<lparr>props := p, itemsRefs := refs\<rparr>) (props c) (state c)"
  have f: "flush ?d = Inr c'" using assms(1) Update by simp
  have "set (map fst (pending ?d)) \<subseteq> range CurrentIndex \<union> {ScrollEnabled True}"
    using updates_componentDidUpdate[of "c\<lparr>props := p, itemsRefs := refs\<rparr>" "props c" "state c"]
      assms(2) by auto
  moreover have "scrollEnabled (state ?d)"
    using assms(3) by simp
  ultimately have "scrollEnabled (state c')"
    using f by (blast intro: flush_keeps_enabled)
  then show ?thesis
    using f by (simp add: flush_pending)
next
  case Render
  then show ?thesis using assms by (auto simp: renderChildren_def)
next
  case (AttachRef i r)
  then show ?thesis using assms by (auto simp: attachRef_def)
next
  case AttachScrollBar
  then show ?thesis using assms by auto
next
  case Timeout
  then show ?thesis using assms
    by (auto simp: onItemPress_timeout_def onChangeIndex_def onTabSelected_def invoke_def Let_def
        split: list.splits option.splits if_splits)
qed

lemma steps_keep_enabled:
  "steps c as = Inr c' \<Longrightarrow> pending c = [] \<Longrightarrow> scrollEnabled (state c) \<Longrightarrow>
   scrollEnabled (state c')"
proof (induction as arbitrary: c)
  case Nil
  then show ?case by simp
next
  case (Cons a as)
  from Cons.prems(1) obtain c1 where s: "step c a = Inr c1" and r: "steps c1 as = Inr c'"
    by (auto split: sum.splits)
  from step_keeps_enabled[OF s Cons.prems(2,3)] Cons.IH[OF r] show ?case by blast
qed

lemma scrollContainerWidth_scrollContentWidth [simp]:
  "scrollContainerWidth (c\<lparr>scrollContentWidth := v\<rparr>) = scrollContainerWidth c"
  by (simp add: scrollContainerWidth_def split: option.splits)

lemma hasOverflow_set_width [simp]:
  "hasOverflow (c\<lparr>scrollContentWidth := Some w\<rparr>) = (w > scrollContainerWidth c)"
  by (simp add: hasOverflow_def)

lemma minChildrenCount_scrollContentWidth [simp]:
  "minChildrenCount (c\<lparr>scrollContentWidth := v\<rparr>) = minChildrenCount c"
  by (simp add: minChildrenCount_def)

lemma childrenCount_scrollContentWidth [simp]:
  "childrenCount (c\<lparr>scrollContentWidth := v\<rparr>) = childrenCount c"
  by (simp add: childrenCount_def)

lemma content_size_enables:
  assumes "pending c = []" "scrollContentWidth c \<noteq> Some w"
    and "w > scrollContainerWidth c" "int (childrenCount c) > minChildrenCount c"
  shows "step c (ContentSizeChange w)
     = Inr (c\<lparr>scrollContentWidth := Some w, state := (state c)\<lparr>scrollEnabled := True\<rparr>\<rparr>)"
proof -
  have "onContentSizeChange c w
          = (c\<lparr>scrollContentWidth := Some w\<rparr>)\<lparr>pending := [(ScrollEnabled True, None)]\<rparr>"
    using assms by (simp add: onContentSizeChange_def setState_def Let_def)
  then show ?thesis
    using assms(1) by (cases c) (simp add: flush_def commitState_def List.map_filter_simps)
qed

text \<open>
  C4, as the code has it. A content-size-change event whose width differs from the width
  recorded last, exceeds the container width, and comes while there are more children than
  the effective minimum, switches \<open>scrollEnabled\<close> on. The effective minimum is the
  configured \<^verbatim>\<open>minTabsForScroll\<close> when that is a number other than 0, and 1 when the prop is
  0 or not passed. Once \<open>scrollEnabled\<close> is on, no run of events switches it off.
\<close>

theorem scrollEnabled_monotone:
  "(pending c = [] \<and> scrollContentWidth c \<noteq> Some w \<and> w > scrollContainerWidth c
      \<and> int (length (children (props c)))
          > (case minTabsForScroll (props c) of None \<Rightarrow> 1 | Some m \<Rightarrow> if m = 0 then 1 else m)
    \<longrightarrow> step c (ContentSizeChange w)
          = Inr (c\<lparr>scrollContentWidth := Some w, state := (state c)\<lparr>scrollEnabled := True\<rparr>\<rparr>))
   \<and> (pending d = [] \<and> scrollEnabled (state d) \<and> steps d as = Inr d'
        \<longrightarrow> scrollEnabled (state d'))"
proof (intro conjI impI)
  assume a: "pending c = [] \<and> scrollContentWidth c \<noteq> Some w \<and> w > scrollContainerWidth c
      \<and> int (length (children (props c)))
          > (case minTabsForScroll (props c) of None \<Rightarrow> 1 | Some m \<Rightarrow> if m = 0 then 1 else m)"
  then have "int (childrenCount c) > minChildrenCount c"
    by (cases "minTabsForScroll (props c)")
      (auto simp: childrenCount_def minChildrenCount_def MIN_TABS_FOR_SCROLL_def
        split: if_splits)
  with a show "step c (ContentSizeChange w)
          = Inr (c\<lparr>scrollContentWidth := Some w, state := (state c)\<lparr>scrollEnabled := True\<rparr>\<rparr>)"
    using content_size_enables[of c w] by blast
next
  assume "pending d = [] \<and> scrollEnabled (state d) \<and> steps d as = Inr d'"
  then show "scrollEnabled (state d')"
    using steps_keep_enabled[of d as d'] by blast
qed

theorem scrollEnabled_monotone_witness:
  "step (constructor ex_props 400 exact) (ContentSizeChange 600)
     = Inr ((constructor ex_props 400 exact)
             \<lparr>scrollContentWidth := Some 600,
              state := \<lparr>scrollEnabled = True, currentIndex = 0\<rparr>\<rparr>)
   \<and> (case steps (ex_mounted\<lparr>state := \<lparr>scrollEnabled = True, currentIndex = 0\<rparr>\<rparr>)
              [Press 2, Timeout, ContentSizeChange 100, Update ex_single (take 1 ex_refs)] of
        Inl e \<Rightarrow> False
      | Inr d' \<Rightarrow> scrollEnabled (state d'))"
proof
  show "step (constructor ex_props 400 exact) (ContentSizeChange 600)
     = Inr ((constructor ex_props 400 exact)
             \<lparr>scrollContentWidth := Some 600,
              state := \<lparr>scrollEnabled = True, currentIndex = 0\<rparr>\<rparr>)"
    using scrollEnabled_monotone[of "constructor ex_props 400 exact" 600]
    by (simp add: constructor_def ex_props_def ex_item_def scrollContainerWidth_def
        childrenCount_def minChildrenCount_def MIN_TABS_FOR_SCROLL_def)
next
  let ?d = "ex_mounted\<lparr>state := \<lparr>scrollEnabled = True, currentIndex = 0\<rparr>\<rparr>"
  let ?as = "[Press 2, Timeout, ContentSizeChange 100, Update ex_single (take 1 ex_refs)]"
  obtain d' where run: "steps ?d ?as = Inr d'"
    by (simp add: ex_mounted_def ex_single_def ex_props_def ex_item_def ex_refs_def
        constructor_def onItemPress_def updateIndicator_def isIgnored_def nth_opt_def
        setState_def flush_def commitState_def List.map_filter_simps scrollToSelected_def
        hasOverflow_def scrollContainerWidth_def scrollTo_def onItemPress_timeout_def
        onChangeIndex_def onTabSelected_def invoke_def onContentSizeChange_def
        componentDidUpdate_def childrenCount_def Let_def)
  moreover have "pending ?d = []" "scrollEnabled (state ?d)"
    by (simp_all add: ex_mounted_def constructor_def)
  ultimately have "scrollEnabled (state d')"
    using scrollEnabled_monotone[of _ _ ?d ?as d'] by blast
  with run show "case steps ?d ?as of Inl e \<Rightarrow> False | Inr d' \<Rightarrow> scrollEnabled (state d')"
    by simp
qed

text \<open>
  The claim as written fails in two ways. It covers every content-size-change event, and
  the handler returns at once when the width is the one it recorded last: here the width
  500 was recorded while the minimum was 5; the prop is then no longer passed, the same
  width is reported again, the content overflows, three children exceed the default 1, and
  the scroll stays disabled. And it compares the children with the configured minimum,
  where the code turns a configured 0 into 1: one child in an overflowing row exceeds the
  configured 0, the width is new, and the scroll stays disabled.
\<close>

theorem scrollEnabled_counterexample:
  "(case steps (constructor ex_min5 400 exact) [ContentSizeChange 500, Update ex_props []] of
      Inl e \<Rightarrow> False
    | Inr c \<Rightarrow>
        500 > scrollContainerWidth c \<and> minTabsForScroll (props c) = None
        \<and> length (children (props c)) = 3
        \<and> (case step c (ContentSizeChange 500) of
             Inl e \<Rightarrow> False
           | Inr c' \<Rightarrow> \<not> scrollEnabled (state c')))
   \<and> minTabsForScroll ex_min0 = Some 0 \<and> length (children ex_min0) = 1
   \<and> scrollContentWidth (constructor ex_min0 400 exact) \<noteq> Some 600
   \<and> 600 > scrollContainerWidth (constructor ex_min0 400 exact)
   \<and> (case step (constructor ex_min0 400 exact) (ContentSizeChange 600) of
        Inl e \<Rightarrow> False
      | Inr c' \<Rightarrow> \<not> scrollEnabled (state c'))"
  by (simp add: constructor_def ex_min5_def ex_min0_def ex_single_def ex_props_def ex_item_def
      onContentSizeChange_def hasOverflow_def scrollContainerWidth_def childrenCount_def
      minChildrenCount_def MIN_TABS_FOR_SCROLL_def setState_def flush_def commitState_def
      List.map_filter_simps componentDidUpdate_def updateIndicator_def Let_def)

lemma content_size_no_overflow:
  assumes "w \<le> scrollContainerWidth c" "pending c = []"
  shows "\<exists>c1. step c (ContentSizeChange w) = Inr c1 \<and> state c1 = state c \<and> pending c1 = []
           \<and> scrollContainerWidth c1 = scrollContainerWidth c"
proof (cases "scrollContentWidth c = Some w")
  case True
  then have "onContentSizeChange c w = c"
    by (simp add: onContentSizeChange_def)
  then show ?thesis
    using assms(2) by (simp add: flush_nil)
next
  case False
  then have "onContentSizeChange c w = c\<lparr>scrollContentWidth := Some w\<rparr>"
    using assms(1) by (simp add: onContentSizeChange_def Let_def)
  then show ?thesis
    using assms(2) by (simp add: flush_nil)
qed

lemma content_sizes_no_overflow:
  assumes "\<forall>w \<in> set ws. w \<le> scrollContainerWidth c" "pending c = []"
  shows "\<exists>c'. steps c (map ContentSizeChange ws) = Inr c' \<and> state c' = state c"
  using assms
proof (induction ws arbitrary: c)
  case Nil
  then show ?case by simp
next
  case (Cons w ws)
  from Cons.prems obtain c1 where c1: "step c (ContentSizeChange w) = Inr c1"
    "state c1 = state c" "pending c1 = []" "scrollContainerWidth c1 = scrollContainerWidth c"
    using content_size_no_overflow[of w c] by auto
  with Cons.prems have "\<forall>w \<in> set ws. w \<le> scrollContainerWidth c1"
    by simp
  from Cons.IH[OF this c1(3)] obtain c' where
    "steps c1 (map ContentSizeChange ws) = Inr c'" "state c' = state c1"
    by blast
  with c1 show ?case by simp
qed

text \<open>
  C5. Through a sequence of content-size-change events whose widths never exceed the
  container width, \<open>scrollEnabled\<close> stays off: after every prefix of the sequence the
  component is still running and the flag is still false.
\<close>

theorem scrollEnabled_stays_off:
  assumes "\<not> scrollEnabled (state c)" "pending c = []"
    and "\<forall>w \<in> set ws. w \<le> scrollContainerWidth c"
  shows "\<exists>c'. steps c (map ContentSizeChange (take n ws)) = Inr c'
           \<and> \<not> scrollEnabled (state c')"
proof -
  have "\<forall>w \<in> set (take n ws). w \<le> scrollContainerWidth c"
    using assms(3) by (auto dest: in_set_takeD)
  from content_sizes_no_overflow[OF this assms(2)] assms(1) show ?thesis
    by auto
qed

theorem scrollEnabled_stays_off_witness:
  "(case steps (constructor ex_props 400 exact) (map ContentSizeChange [100, 300, 250]) of
      Inl e \<Rightarrow> False
    | Inr c' \<Rightarrow> \<not> scrollEnabled (state c'))"
proof -
  have "\<forall>w \<in> set [100, 300, 250]. w \<le> scrollContainerWidth (constructor ex_props 400 exact)"
    by (simp add: constructor_def ex_props_def scrollContainerWidth_def)
  moreover have "\<not> scrollEnabled (state (constructor ex_props 400 exact))"
    "pending (constructor ex_props 400 exact) = []"
    by (simp_all add: constructor_def)
  ultimately obtain c' where
    "steps (constructor ex_props 400 exact) (map ContentSizeChange (take 3 [100, 300, 250])) = Inr c'"
    "\<not> scrollEnabled (state c')"
    using scrollEnabled_stays_off[of "constructor ex_props 400 exact" "[100, 300, 250]" 3] by blast
  then show ?thesis by simp
qed

lemma scrollContainerWidth_minTabs [simp]:
  "scrollContainerWidth (c\<lparr>props := p\<lparr>minTabsForScroll := m\<rparr>\<rparr>)
     = scrollContainerWidth (c\<lparr>props := p\<rparr>)"
  by (simp add: scrollContainerWidth_def split: option.splits)

text \<open>
  C10. With \<^verbatim>\<open>minTabsForScroll\<close> 0 the minimum used is the default 1, as when the prop is
  not passed, and a content-size-change event does the same in both cases.
\<close>

theorem minTabsForScroll_zero:
  "minChildrenCount (c\<lparr>props := p\<lparr>minTabsForScroll := Some 0\<rparr>\<rparr>) = 1
   \<and> minChildrenCount (c\<lparr>props := p\<lparr>minTabsForScroll := None\<rparr>\<rparr>) = 1
   \<and> onContentSizeChange (c\<lparr>props := p\<lparr>minTabsForScroll := Some 0\<rparr>\<rparr>) w
       = (onContentSizeChange (c\<lparr>props := p\<lparr>minTabsForScroll := None\<rparr>\<rparr>) w)
           \<lparr>props := p\<lparr>minTabsForScroll := Some 0\<rparr>\<rparr>"
proof (intro conjI)
  show "minChildrenCount (c\<lparr>props := p\<lparr>minTabsForScroll := Some 0\<rparr>\<rparr>) = 1"
    by (simp add: minChildrenCount_def MIN_TABS_FOR_SCROLL_def)
  show "minChildrenCount (c\<lparr>props := p\<lparr>minTabsForScroll := None\<rparr>\<rparr>) = 1"
    by (simp add: minChildrenCount_def MIN_TABS_FOR_SCROLL_def)
  show "onContentSizeChange (c\<lparr>props := p\<lparr>minTabsForScroll := Some 0\<rparr>\<rparr>) w
       = (onContentSizeChange (c\<lparr>props := p\<lparr>minTabsForScroll := None\<rparr>\<rparr>) w)
           \<lparr>props := p\<lparr>minTabsForScroll := Some 0\<rparr>\<rparr>"
    by (simp add: onContentSizeChange_def minChildrenCount_def
        MIN_TABS_FOR_SCROLL_def childrenCount_def setState_def Let_def)
qed

subsection \<open>Removing children\<close>

lemma isIgnored_props_only:
  "props c = props d \<Longrightarrow> isIgnored c i = isIgnored d i"
  by (simp add: isIgnored_def)

lemma componentDidUpdate_commit:
  assumes "length (children (props c)) < length (children prevProps)" "pending c = []"
  shows "currentIndex (state (commitState (componentDidUpdate c prevProps prevState)))
     = (if selectedIndex (props c) \<noteq> currentIndex prevState
           \<and> selectedIndex prevProps \<noteq> selectedIndex (props c)
           \<and> \<not> isIgnored c (selectedIndex (props c))
        then selectedIndex (props c)
        else if \<not> isIgnored c 0 then 0
        else currentIndex (state c))"
proof -
  have ig: "\<And>i u cb. isIgnored (setState c u cb) i = isIgnored c i"
    by (rule isIgnored_props_only) (simp add: setState_def)
  show ?thesis
    using assms
    by (simp add: componentDidUpdate_def childrenCount_def updateIndicator_def ig Let_def)
      (simp add: setState_def commitState_def)
qed

text \<open>
  C6, as the code has it. After an update that leaves fewer children than before, with
  the first of the new children not ignored, \<open>currentIndex\<close> is 0, unless the same update
  changed \<^verbatim>\<open>selectedIndex\<close> to a value that differs from the previous current index and
  does not name an ignored child: then \<open>currentIndex\<close> is that value.
\<close>

theorem children_removed_resets:
  assumes "length (children p) < length (children (props c))"
    and "pending c = []"
    and "\<not> isIgnored (c\<lparr>props := p\<rparr>) 0"
  shows "(step c (Update p refs) = Inr c' \<longrightarrow>
            currentIndex (state c')
              = (if selectedIndex p \<noteq> currentIndex (state c)
                    \<and> selectedIndex (props c) \<noteq> selectedIndex p
                    \<and> \<not> isIgnored (c\<lparr>props := p\<rparr>) (selectedIndex p)
                 then selectedIndex p else 0))
    \<and> currentIndex
         (state (commitState
           (componentDidUpdate (c\<lparr>props := p, itemsRefs := refs\<rparr>) (props c) (state c))))
       = (if selectedIndex p \<noteq> currentIndex (state c)
             \<and> selectedIndex (props c) \<noteq> selectedIndex p
             \<and> \<not> isIgnored (c\<lparr>props := p\<rparr>) (selectedIndex p)
          then selectedIndex p else 0)"
proof -
  let ?d = "c\<lparr>props := p, itemsRefs := refs\<rparr>"
  have ig: "\<And>i. isIgnored ?d i = isIgnored (c\<lparr>props := p\<rparr>) i"
    by (rule isIgnored_props_only) simp
  have commit: "currentIndex (state (commitState (componentDidUpdate ?d (props c) (state c))))
       = (if selectedIndex p \<noteq> currentIndex (state c)
             \<and> selectedIndex (props c) \<noteq> selectedIndex p
             \<and> \<not> isIgnored (c\<lparr>props := p\<rparr>) (selectedIndex p)
          then selectedIndex p else 0)"
    using componentDidUpdate_commit[of ?d "props c" "state c"] assms
    by (simp add: ig)
  moreover have "step c (Update p refs) = Inr c' \<longrightarrow>
      state c' = state (commitState (componentDidUpdate ?d (props c) (state c)))"
    by (auto dest: flush_commit_state)
  ultimately show ?thesis by simp
qed

theorem children_removed_resets_witness:
  "(case step (ex_mounted\<lparr>state := \<lparr>scrollEnabled = False, currentIndex = 2\<rparr>\<rparr>)
           (Update (ex_two\<lparr>selectedIndex := 0\<rparr>) (take 2 ex_refs)) of
      Inl e \<Rightarrow> False
    | Inr c' \<Rightarrow> currentIndex (state c') = 0)
   \<and> (case step ex_mounted (Update ex_two (take 2 ex_refs)) of
        Inl e \<Rightarrow> False
      | Inr c' \<Rightarrow> currentIndex (state c') = selectedIndex ex_two)"
proof
  let ?c = "ex_mounted\<lparr>state := \<lparr>scrollEnabled = False, currentIndex = 2\<rparr>\<rparr>"
  let ?p = "ex_two\<lparr>selectedIndex := 0\<rparr>"
  obtain c' where run: "step ?c (Update ?p (take 2 ex_refs)) = Inr c'"
    by (simp add: ex_mounted_def ex_two_def ex_props_def ex_item_def ex_refs_def
        constructor_def componentDidUpdate_def childrenCount_def updateIndicator_def
        isIgnored_def nth_opt_def setState_def flush_def commitState_def
        List.map_filter_simps scrollToSelected_def hasOverflow_def scrollContainerWidth_def
        scrollTo_def Let_def)
  moreover have "length (children ?p) < length (children (props ?c))" "pending ?c = []"
    "\<not> isIgnored (?c\<lparr>props := ?p\<rparr>) 0"
    by (simp_all add: ex_mounted_def ex_two_def ex_props_def ex_item_def constructor_def
        isIgnored_def nth_opt_def)
  ultimately have "currentIndex (state c') = 0"
    using children_removed_resets[of ?p ?c "take 2 ex_refs" c']
    by (simp add: ex_mounted_def ex_two_def ex_props_def constructor_def)
  with run show "case step ?c (Update ?p (take 2 ex_refs)) of
      Inl e \<Rightarrow> False | Inr c' \<Rightarrow> currentIndex (state c') = 0"
    by simp
next
  obtain c' where run: "step ex_mounted (Update ex_two (take 2 ex_refs)) = Inr c'"
    by (simp add: ex_mounted_def ex_two_def ex_props_def ex_item_def ex_refs_def
        constructor_def componentDidUpdate_def childrenCount_def updateIndicator_def
        isIgnored_def nth_opt_def setState_def flush_def commitState_def
        List.map_filter_simps scrollToSelected_def hasOverflow_def scrollContainerWidth_def
        scrollTo_def Let_def)
  moreover have "length (children ex_two) < length (children (props ex_mounted))"
    "pending ex_mounted = []" "\<not> isIgnored (ex_mounted\<lparr>props := ex_two\<rparr>) 0"
    "\<not> isIgnored (ex_mounted\<lparr>props := ex_two\<rparr>) (selectedIndex ex_two)"
    by (simp_all add: ex_mounted_def ex_two_def ex_props_def ex_item_def constructor_def
        isIgnored_def nth_opt_def)
  ultimately have "currentIndex (state c') = selectedIndex ex_two"
    using children_removed_resets[of ex_two ex_mounted "take 2 ex_refs" c']
    by (simp add: ex_mounted_def ex_two_def ex_props_def constructor_def)
  with run show "case step ex_mounted (Update ex_two (take 2 ex_refs)) of
      Inl e \<Rightarrow> False | Inr c' \<Rightarrow> currentIndex (state c') = selectedIndex ex_two"
    by simp
qed

text \<open>
  The claim as written fails in two ways. An update that removes the third tab and sets
  \<^verbatim>\<open>selectedIndex\<close> to 1 ends with the current index 1. An update that removes a tab and
  leaves an ignored tab first (the third tab was current) leaves the current index at 2.
\<close>

theorem children_removed_counterexample:
  "length (children ex_two) < length (children (props ex_mounted))
   \<and> (case step ex_mounted (Update ex_two (take 2 ex_refs)) of
        Inl e \<Rightarrow> False
      | Inr c' \<Rightarrow> currentIndex (state c') = 1)
   \<and> length (children ex_two_ignored) < length (children (props ex_mounted))
   \<and> (case steps ex_mounted [Press 2, Update ex_two_ignored (take 2 ex_refs)] of
        Inl e \<Rightarrow> False
      | Inr c' \<Rightarrow> currentIndex (state c') = 2)"
  by (simp add: ex_mounted_def ex_two_def ex_two_ignored_def ex_props_def ex_item_def ex_refs_def
      constructor_def componentDidUpdate_def childrenCount_def updateIndicator_def
      isIgnored_def nth_opt_def setState_def flush_def commitState_def
      List.map_filter_simps scrollToSelected_def hasOverflow_def scrollContainerWidth_def
      scrollTo_def onItemPress_def Let_def)

subsection \<open>Accessibility label\<close>

text \<open>\<open>string_of_nat\<close> prints the decimal digits: reading them back gives the number.\<close>

lemma string_of_nat_small: "n < 10 \<Longrightarrow> string_of_nat n = [digit_char n]"
  by (simp add: string_of_nat.simps)

lemma digit_value_digit_char: "d < 10 \<Longrightarrow> digit_value (digit_char d) = d"
proof -
  assume "d < 10"
  then consider "d = 0" | "d = 1" | "d = 2" | "d = 3" | "d = 4" | "d = 5" | "d = 6"
    | "d = 7" | "d = 8" | "d = 9"
    by (auto simp: less_Suc_eq eval_nat_numeral)
  then show ?thesis
    by cases (simp_all add: digit_value_def digit_char_def)
qed

lemma nat_of_string_of_nat: "nat_of_string (string_of_nat n) = n"
proof (induction n rule: string_of_nat.induct)
  case (1 n)
  show ?case
  proof (cases "n < 10")
    case True
    then show ?thesis
      by (simp add: string_of_nat.simps[of n] nat_of_string_def digit_value_digit_char)
  next
    case False
    with 1 have "nat_of_string (string_of_nat (n div 10)) = n div 10" by simp
    then show ?thesis
      using False
      by (simp add: string_of_nat.simps[of n] nat_of_string_def digit_value_digit_char)
  qed
qed

text \<open>
  C9, as the code has it. The clone of the child at position \<open>i\<close> of \<open>n\<close> gets the label
  \<^verbatim>\<open><label> {i+1} out of {n}\<close>, where \<^verbatim>\<open><label>\<close> is the child's \<^verbatim>\<open>accessibilityLabel\<close> if it
  is present and not empty, else its \<^verbatim>\<open>label\<close> if present, else the empty string.
\<close>

theorem accessibilityLabel_format:
  assumes "i < length (children (props c))"
  shows "clone_accessibilityLabel (snd (renderChildren c) ! i)
     = (case accessibilityLabel (children (props c) ! i) of
          Some a \<Rightarrow>
            if a \<noteq> [] then a
            else (case label (children (props c) ! i) of Some l \<Rightarrow> l | None \<Rightarrow> [])
        | None \<Rightarrow> (case label (children (props c) ! i) of Some l \<Rightarrow> l | None \<Rightarrow> []))
       @ '' '' @ string_of_nat (i + 1) @ '' out of ''
       @ string_of_nat (length (children (props c)))"
  using assms
  by (simp add: renderChildren_nth cloneElement_def js_or_def childrenCount_def Let_def
      split: option.splits)

theorem accessibilityLabel_format_witness:
  "clone_accessibilityLabel (snd (renderChildren (constructor ex_props 400 exact)) ! 0)
     = ''a 1 out of 3''
   \<and> clone_accessibilityLabel (snd (renderChildren (constructor ex_props 400 exact)) ! 2)
     = ''c 3 out of 3''"
proof
  show "clone_accessibilityLabel (snd (renderChildren (constructor ex_props 400 exact)) ! 0)
     = ''a 1 out of 3''"
    using accessibilityLabel_format[of 0 "constructor ex_props 400 exact"]
    by (simp add: constructor_def ex_props_def ex_item_def string_of_nat_small digit_char_def)
  show "clone_accessibilityLabel (snd (renderChildren (constructor ex_props 400 exact)) ! 2)
     = ''c 3 out of 3''"
    using accessibilityLabel_format[of 2 "constructor ex_props 400 exact"]
    by (simp add: constructor_def ex_props_def ex_item_def string_of_nat_small digit_char_def)
qed

text \<open>
  The claim as written takes the child's own \<^verbatim>\<open>accessibilityLabel\<close> whenever it is present.
  A child with the empty string for it and the label \<^verbatim>\<open>Home\<close> gets \<^verbatim>\<open>Home 1 out of 1\<close>,
  where the claim's words give \<^verbatim>\<open> 1 out of 1\<close>.
\<close>

theorem accessibilityLabel_counterexample:
  "clone_accessibilityLabel (snd (renderChildren (constructor ex_empty_label 400 exact)) ! 0)
     = ''Home 1 out of 1''
   \<and> label_if_present (children ex_empty_label ! 0) @ '' '' @ string_of_nat (0 + 1)
       @ '' out of '' @ string_of_nat (length (children ex_empty_label))
     = '' 1 out of 1''
   \<and> clone_accessibilityLabel (snd (renderChildren (constructor ex_empty_label 400 exact)) ! 0)
     \<noteq> label_if_present (children ex_empty_label ! 0) @ '' '' @ string_of_nat (0 + 1)
         @ '' out of '' @ string_of_nat (length (children ex_empty_label))"
  by (simp add: renderChildren_def cloneElement_def constructor_def ex_empty_label_def
      ex_props_def js_or_def childrenCount_def label_if_present_def string_of_nat_small
      digit_char_def Let_def)

end
